theory Spec2Isabelle
  imports Main "HOL-Library.AList"
begin

section \<open>Python strings\<close>

text \<open>
  A Python \<open>str\<close> is modelled as a \<open>string\<close> whose characters are the code points
  below 256.  \<open>isspace\<close>, \<open>strip\<close> and \<open>lower\<close> follow \<open>str.isspace\<close>,
  \<open>str.strip()\<close> (no argument) and \<open>str.lower()\<close> on that range.
\<close>

definition isspace :: "char \<Rightarrow> bool" where
  "isspace c =
     (let n = (of_char c :: nat)
      in (9 \<le> n \<and> n \<le> 13) \<or> (28 \<le> n \<and> n \<le> 32) \<or> n = 133 \<or> n = 160)"

definition strip :: "string \<Rightarrow> string" where
  "strip s = rev (dropWhile isspace (rev (dropWhile isspace s)))"

text \<open>
  Lowering an upper-case letter adds 32 to its code point; the upper-case code points
  (65 to 90, and 192 to 222 without 215) all have bit 5 clear, so adding 32 sets bit 5.
\<close>

fun lower_char :: "char \<Rightarrow> char" where
  "lower_char (Char b0 b1 b2 b3 b4 b5 b6 b7) =
     (let n = (of_char (Char b0 b1 b2 b3 b4 b5 b6 b7) :: nat)
      in if (65 \<le> n \<and> n \<le> 90) \<or> (192 \<le> n \<and> n \<le> 222 \<and> n \<noteq> 215)
         then Char b0 b1 b2 b3 b4 True b6 b7
         else Char b0 b1 b2 b3 b4 b5 b6 b7)"

definition lower :: "string \<Rightarrow> string" where
  "lower s = map lower_char s"

section \<open>Python errors\<close>

text \<open>
  \<open>ValueError\<close> is Python's exception.  \<open>NotModelled\<close> is no exception of Python: it
  marks the inputs on which the model of a library function stops.
\<close>

datatype py_error = ValueError | NotModelled

section \<open>Domain entities (worldbuild/domain/entities.py, resonance/domain/entities.py)\<close>

text \<open>
  \<open>class EntityType(str, Enum)\<close> of the worldbuild package: the members in definition
  order, the string each member carries, and the lookup by value \<open>EntityType(v)\<close>, which
  raises \<open>ValueError\<close> when no member carries \<open>v\<close>.
\<close>

datatype EntityType = CHARACTER | LOCATION | ORGANIZATION | ITEM

definition EntityType_members :: "EntityType list" where
  "EntityType_members = [CHARACTER, LOCATION, ORGANIZATION, ITEM]"

fun EntityType_value :: "EntityType \<Rightarrow> string" where
  "EntityType_value CHARACTER = ''character''"
| "EntityType_value LOCATION = ''location''"
| "EntityType_value ORGANIZATION = ''organization''"
| "EntityType_value ITEM = ''item''"

definition EntityType_of_value :: "string \<Rightarrow> py_error + EntityType" where
  "EntityType_of_value v =
     (case List.find (\<lambda>m. EntityType_value m = v) EntityType_members of
        Some m \<Rightarrow> Inr m
      | None \<Rightarrow> Inl ValueError)"

text \<open>The enumeration of the same name in resonance/domain/entities.py.\<close>

datatype Resonance_EntityType =
  R_CHARACTER | R_LOCATION | R_ORGANIZATION | R_ITEM | R_FACTION | R_EVENT | R_CONCEPT

definition Resonance_EntityType_members :: "Resonance_EntityType list" where
  "Resonance_EntityType_members =
     [R_CHARACTER, R_LOCATION, R_ORGANIZATION, R_ITEM, R_FACTION, R_EVENT, R_CONCEPT]"

fun Resonance_EntityType_value :: "Resonance_EntityType \<Rightarrow> string" where
  "Resonance_EntityType_value R_CHARACTER = ''character''"
| "Resonance_EntityType_value R_LOCATION = ''location''"
| "Resonance_EntityType_value R_ORGANIZATION = ''organization''"
| "Resonance_EntityType_value R_ITEM = ''item''"
| "Resonance_EntityType_value R_FACTION = ''faction''"
| "Resonance_EntityType_value R_EVENT = ''event''"
| "Resonance_EntityType_value R_CONCEPT = ''concept''"

definition Resonance_EntityType_of_value :: "string \<Rightarrow> py_error + Resonance_EntityType" where
  "Resonance_EntityType_of_value v =
     (case List.find (\<lambda>m. Resonance_EntityType_value m = v) Resonance_EntityType_members of
        Some m \<Rightarrow> Inr m
      | None \<Rightarrow> Inl ValueError)"

text \<open>
  The two models the ledger handles, as worldbuild/domain/entities.py declares them
  (resonance's have the same fields).  An \<open>Optional\<close> field is an \<open>option\<close>, absent
  when \<open>None\<close>.  The field \<open>id\<close> is \<open>id'\<close> in \<open>WorldEntity\<close> and \<open>rel_id\<close> in
  \<open>Relation\<close>; \<open>description\<close> and \<open>metadata\<close> of \<open>Relation\<close> carry the prefix
  \<open>rel_\<close>.
\<close>

record WorldEntity =
  id' :: "int option"
  chunk_id :: "int option"
  entity_type :: EntityType
  name :: string
  description :: string
  metadata :: "string \<rightharpoonup> string option"

record Relation =
  rel_id :: "int option"
  predicate :: string
  subject_entity_id :: "int option"
  subject_name :: "string option"
  object_entity_id :: "int option"
  object_name :: "string option"
  rel_description :: "string option"
  rel_metadata :: "string \<rightharpoonup> string option"

section \<open>The document ledger (worldbuild/domain/ledger.py)\<close>

text \<open>
  The ledger's only attribute is the ordered dictionary \<open>_entities\<close>: an association
  list in insertion order.  Assigning to a key that is present replaces the value in
  place, assigning to a new key appends (\<open>AList.update\<close>); \<open>map_of\<close> is \<open>dict.get\<close>.
\<close>

type_synonym DocumentLedger = "(string \<times> WorldEntity) list"

text \<open>
  \<open>__init__\<close> gives the empty dictionary; \<open>_key\<close> is \<open>name.strip().lower()\<close>.  The
  methods take the dictionary and return the one they leave behind.
\<close>

definition new_ledger :: DocumentLedger where
  "new_ledger = []"

definition ledger_key :: "string \<Rightarrow> string" where
  "ledger_key nm = lower (strip nm)"

text \<open>The loop of \<open>register_entities\<close>, with the dictionary and \<open>unique\<close> as its state.\<close>

primrec register_loop ::
  "DocumentLedger \<Rightarrow> WorldEntity list \<Rightarrow> WorldEntity list \<Rightarrow> DocumentLedger \<times> WorldEntity list"
where
  "register_loop L unique [] = (L, unique)"
| "register_loop L unique (entity # entities) =
     (let k = ledger_key (name entity)
      in if map_of L k \<noteq> None then register_loop L unique entities
         else register_loop (AList.update k entity L) (unique @ [entity]) entities)"

definition register_entities ::
  "DocumentLedger \<Rightarrow> WorldEntity list \<Rightarrow> DocumentLedger \<times> WorldEntity list"
where
  "register_entities L entities = register_loop L [] entities"

primrec update_with_stored :: "DocumentLedger \<Rightarrow> WorldEntity list \<Rightarrow> DocumentLedger" where
  "update_with_stored L [] = L"
| "update_with_stored L (entity # entities) =
     update_with_stored (AList.update (ledger_key (name entity)) entity L) entities"

text \<open>
  \<open>_lookup\<close>: with an identifier, the first entity in the dictionary's order that has
  it; without one, the entry under the normalized name, when the name is present and
  not the empty string (\<open>if name:\<close>).
\<close>

definition ledger_lookup ::
  "DocumentLedger \<Rightarrow> int option \<Rightarrow> string option \<Rightarrow> WorldEntity option"
where
  "ledger_lookup L entity_id nm =
     (case entity_id of
        Some i \<Rightarrow> List.find (\<lambda>entity. id' entity = Some i) (map snd L)
      | None \<Rightarrow>
          (case nm of
             Some n \<Rightarrow> if n \<noteq> [] then map_of L (ledger_key n) else None
           | None \<Rightarrow> None))"

text \<open>
  The body of the loop of \<open>resolve_relations\<close>.  \<open>model_copy(update=...)\<close> builds a new
  relation with the two identifiers replaced; \<open>subject.id if subject else ...\<close> tests
  whether the lookup found an entity (a model instance is never false).
\<close>

definition resolve_relation :: "DocumentLedger \<Rightarrow> Relation \<Rightarrow> Relation" where
  "resolve_relation L relation =
     (let subject = ledger_lookup L (subject_entity_id relation) (subject_name relation);
          obj = ledger_lookup L (object_entity_id relation) (object_name relation)
      in relation
           \<lparr> subject_entity_id :=
               (case subject of Some s \<Rightarrow> id' s | None \<Rightarrow> subject_entity_id relation),
             object_entity_id :=
               (case obj of Some ob \<Rightarrow> id' ob | None \<Rightarrow> object_entity_id relation) \<rparr>)"

definition resolve_relations :: "DocumentLedger \<Rightarrow> Relation list \<Rightarrow> Relation list" where
  "resolve_relations L relations = map (resolve_relation L) relations"

text \<open>
  The dictionary's keys are distinct, and every entity is stored under the normalized
  form of its own name: the state every sequence of calls produces from a new ledger.
\<close>

definition ledger_inv :: "DocumentLedger \<Rightarrow> bool" where
  "ledger_inv L =
     (distinct (map fst L) \<and> list_all (\<lambda>(k, entity). k = ledger_key (name entity)) L)"

text \<open>
  A call of one of the three public methods, and the ledger it leaves behind.
  \<open>resolve_relations\<close> only reads \<open>_entities\<close>.
\<close>

datatype ledger_call =
  Register "WorldEntity list" | Update "WorldEntity list" | Resolve "Relation list"

fun ledger_after :: "DocumentLedger \<Rightarrow> ledger_call \<Rightarrow> DocumentLedger" where
  "ledger_after L (Register entities) = fst (register_entities L entities)"
| "ledger_after L (Update entities) = update_with_stored L entities"
| "ledger_after L (Resolve relations) = L"

text \<open>
  The record the specification's words name for a key once \<open>registered\<close> has been
  registered and \<open>updated\<close> has been passed to the update: the last updated entity with
  that normalized name, and without one the last registered.  It follows the
  specification, not the code.
\<close>

definition last_registered_then_last_updated ::
  "WorldEntity list \<Rightarrow> WorldEntity list \<Rightarrow> string \<Rightarrow> WorldEntity option"
where
  "last_registered_then_last_updated registered updated k =
     (case List.find (\<lambda>e. ledger_key (name e) = k) (rev updated) of
        Some u \<Rightarrow> Some u
      | None \<Rightarrow> List.find (\<lambda>e. ledger_key (name e) = k) (rev registered))"

section \<open>The paragraph chunker (resonance/infrastructure/services/chunkers.py)\<close>







section \<open>textwrap.wrap\<close>

text \<open>
  \<open>textwrap.wrap(text, width)\<close> with the default options of \<open>TextWrapper\<close>, for a text
  without hyphens: \<open>_munge_whitespace\<close>, \<open>_split\<close>, \<open>_wrap_chunks\<close> and
  \<open>_handle_long_word\<close>.  A hyphen adds break points inside words, by rules that are not
  modelled: there the model stops.
\<close>


text \<open>The characters of \<open>textwrap._whitespace\<close>: tab, line feed, 0x0B, 0x0C, return, space.\<close>

definition wrap_whitespace :: "char \<Rightarrow> bool" where
  "wrap_whitespace c = (c \<in> set [CHR 0x09, CHR 0x0A, CHR 0x0B, CHR 0x0C, CHR 0x0D, CHR '' ''])"


text \<open>
  \<open>_split\<close> without hyphens: the maximal runs of whitespace and of other characters.
\<close>

fun split_chunks :: "string \<Rightarrow> string list" where
  "split_chunks [] = []"
| "split_chunks (c # cs) =
     (case split_chunks cs of
        [] \<Rightarrow> [[c]]
      | [] # rs \<Rightarrow> [c] # rs
      | (d # r) # rs \<Rightarrow>
          if wrap_whitespace c = wrap_whitespace d then (c # d # r) # rs
          else [c] # (d # r) # rs)"














section \<open>What covering a text means\<close>







section \<open>Test fixtures (tests/domain/test_ledger.py)\<close>

text \<open>\<open>make_entity\<close> and \<open>make_relation\<close> of the ledger's tests.\<close>

definition make_entity :: "string \<Rightarrow> int option \<Rightarrow> WorldEntity" where
  "make_entity nm entity_id =
     \<lparr> id' = entity_id, chunk_id = None, entity_type = LOCATION, name = nm,
       description = ''desc'', metadata = Map.empty \<rparr>"

definition make_relation :: "string option \<Rightarrow> string option \<Rightarrow> Relation" where
  "make_relation subject obj =
     \<lparr> rel_id = None, predicate = ''ally_of'', subject_entity_id = None,
       subject_name = subject, object_entity_id = None, object_name = obj,
       rel_description = None, rel_metadata = Map.empty \<rparr>"

section \<open>Properties of the ledger\<close>

subsection \<open>Normalized names of the fixtures\<close>

lemma ledger_key_Alpha: "ledger_key ''Alpha'' = ''alpha''"
  by (simp add: ledger_key_def strip_def lower_def isspace_def)

lemma ledger_key_alpha: "ledger_key ''alpha'' = ''alpha''"
  by (simp add: ledger_key_def strip_def lower_def isspace_def)

lemma ledger_key_Beta: "ledger_key ''Beta'' = ''beta''"
  by (simp add: ledger_key_def strip_def lower_def isspace_def)

subsection \<open>The registration loop\<close>

lemma register_loop_snd:
  "snd (register_loop L u es) = u @ snd (register_loop L [] es)"
proof (induction es arbitrary: L u)
  case Nil
  show ?case by simp
next
  case (Cons e es)
  show ?case
    using Cons.IH [of L u] Cons.IH [of "AList.update (ledger_key (name e)) e L" "u @ [e]"]
      Cons.IH [of "AList.update (ledger_key (name e)) e L" "[e]"]
    by (simp add: Let_def)
qed

lemma register_loop_fst:
  "fst (register_loop L u es) = fst (register_loop L u' es)"
proof (induction es arbitrary: L u u')
  case Nil
  show ?case by simp
next
  case (Cons e es)
  show ?case
    using Cons.IH [of L u u'] Cons.IH [of "AList.update (ledger_key (name e)) e L" "u @ [e]" "u' @ [e]"]
    by (simp add: Let_def)
qed

lemma register_loop_nths:
  "snd (register_loop L [] es) =
     nths es {i. i < length es \<and> ledger_key (name (es ! i)) \<notin> fst ` set L \<and>
                 (\<forall>j<i. ledger_key (name (es ! j)) \<noteq> ledger_key (name (es ! i)))}"
proof (induction es arbitrary: L)
  case Nil
  show ?case by simp
next
  case (Cons e es)
  let ?k = "ledger_key (name e)"
  let ?A = "{i. i < length (e # es) \<and> ledger_key (name ((e # es) ! i)) \<notin> fst ` set L \<and>
                 (\<forall>j<i. ledger_key (name ((e # es) ! j)) \<noteq> ledger_key (name ((e # es) ! i)))}"
  show ?case
  proof (cases "map_of L ?k = None")
    case False
    then have inL: "?k \<in> fst ` set L" by (simp add: map_of_eq_None_iff)
    have z: "0 \<notin> ?A" using inL by simp
    have s: "{j. Suc j \<in> ?A} = {i. i < length es \<and> ledger_key (name (es ! i)) \<notin> fst ` set L \<and>
                 (\<forall>j<i. ledger_key (name (es ! j)) \<noteq> ledger_key (name (es ! i)))}"
      using inL by (force simp add: All_less_Suc2)
    show ?thesis
      using False Cons.IH [of L] z s by (simp add: nths_Cons Let_def del: nth_Cons_Suc)
  next
    case True
    then have notin: "?k \<notin> fst ` set L" by (simp add: map_of_eq_None_iff)
    have z: "0 \<in> ?A" using notin by simp
    have s: "{j. Suc j \<in> ?A} = {i. i < length es \<and>
                 ledger_key (name (es ! i)) \<notin> fst ` set (AList.update ?k e L) \<and>
                 (\<forall>j<i. ledger_key (name (es ! j)) \<noteq> ledger_key (name (es ! i)))}"
      by (auto simp add: All_less_Suc2 AList.dom_update)
    have "snd (register_loop L [] (e # es)) = e # snd (register_loop (AList.update ?k e L) [] es)"
      using True register_loop_snd [of "AList.update ?k e L" "[e]" es] by (simp add: Let_def)
    then show ?thesis
      using Cons.IH [of "AList.update ?k e L"] z s by (simp add: nths_Cons del: nth_Cons_Suc)
  qed
qed

lemma register_loop_distinct:
  "distinct (map (\<lambda>e. ledger_key (name e)) u) \<Longrightarrow>
   (\<lambda>e. ledger_key (name e)) ` set u \<subseteq> fst ` set L \<Longrightarrow>
   distinct (map (\<lambda>e. ledger_key (name e)) (snd (register_loop L u es)))"
proof (induction es arbitrary: L u)
  case Nil
  then show ?case by simp
next
  case (Cons e es)
  let ?k = "ledger_key (name e)"
  show ?case
  proof (cases "map_of L ?k = None")
    case False
    then show ?thesis using Cons.IH [of u L] Cons.prems by simp
  next
    case True
    then have notin: "?k \<notin> fst ` set L" by (simp add: map_of_eq_None_iff)
    have d: "distinct (map (\<lambda>e. ledger_key (name e)) (u @ [e]))"
      using Cons.prems notin by auto
    have s: "(\<lambda>e. ledger_key (name e)) ` set (u @ [e]) \<subseteq> fst ` set (AList.update ?k e L)"
      using Cons.prems by (auto simp add: AList.dom_update)
    show ?thesis using True Cons.IH [OF d s] by (simp add: Let_def)
  qed
qed

lemma register_loop_stored:
  "(\<forall>e \<in> set u. map_of L (ledger_key (name e)) = Some e) \<Longrightarrow>
   (\<forall>e \<in> set (snd (register_loop L u es)).
      map_of (fst (register_loop L u es)) (ledger_key (name e)) = Some e)"
proof (induction es arbitrary: L u)
  case Nil
  then show ?case by simp
next
  case (Cons e es)
  let ?k = "ledger_key (name e)"
  show ?case
  proof (cases "map_of L ?k = None")
    case False
    then show ?thesis using Cons.IH [of u L] Cons.prems by simp
  next
    case True
    have p: "\<forall>x \<in> set (u @ [e]). map_of (AList.update ?k e L) (ledger_key (name x)) = Some x"
      using Cons.prems True by (auto simp add: AList.update_conv')
    show ?thesis using True Cons.IH [OF p] by (simp add: Let_def)
  qed
qed

lemma register_loop_map_of:
  "map_of (fst (register_loop L u es)) k =
     (case map_of L k of Some e \<Rightarrow> Some e
      | None \<Rightarrow> List.find (\<lambda>e. ledger_key (name e) = k) es)"
  by (induction es arbitrary: L u)
     (auto simp add: Let_def AList.update_conv' split: option.splits)

lemma find_append:
  "List.find P (xs @ ys) = (case List.find P xs of Some x \<Rightarrow> Some x | None \<Rightarrow> List.find P ys)"
  by (induction xs) simp_all

lemma update_with_stored_map_of:
  "map_of (update_with_stored L us) k =
     (case List.find (\<lambda>e. ledger_key (name e) = k) (rev us) of Some u \<Rightarrow> Some u
      | None \<Rightarrow> map_of L k)"
proof (induction us arbitrary: L)
  case Nil
  show ?case by simp
next
  case (Cons e us)
  show ?case
    by (auto simp add: Cons.IH AList.update_conv' find_append split: option.splits)
qed

lemma list_all_update:
  "list_all Q L \<Longrightarrow> Q (k, v) \<Longrightarrow> list_all Q (AList.update k v L)"
  by (induction L) simp_all

lemma ledger_inv_update:
  "ledger_inv L \<Longrightarrow> ledger_inv (AList.update (ledger_key (name e)) e L)"
  by (simp add: ledger_inv_def AList.distinct_update list_all_update)

lemma ledger_inv_register_loop:
  "ledger_inv L \<Longrightarrow> ledger_inv (fst (register_loop L u es))"
  by (induction es arbitrary: L u) (simp_all add: Let_def ledger_inv_update)

lemma ledger_inv_update_with_stored:
  "ledger_inv L \<Longrightarrow> ledger_inv (update_with_stored L es)"
  by (induction es arbitrary: L) (simp_all add: ledger_inv_update)

lemma ledger_inv_names:
  "list_all (\<lambda>(k, entity). k = ledger_key (name entity)) L \<Longrightarrow>
   map (\<lambda>(k, entity). ledger_key (name entity)) L = map fst L"
  by (induction L) auto

lemma ledger_inv_names_distinct:
  "ledger_inv L \<Longrightarrow> distinct (map (\<lambda>(k, entity). ledger_key (name entity)) L)"
  by (simp add: ledger_inv_def ledger_inv_names)

lemma ledger_inv_absent:
  "ledger_inv L \<Longrightarrow> \<forall>e \<in> snd ` set L. ledger_key (name e) \<noteq> k \<Longrightarrow> map_of L k = None"
  by (force simp add: ledger_inv_def list_all_iff map_of_eq_None_iff)


subsection \<open>Registration\<close>

text \<open>
  C1.  \<open>register_entities\<close> returns exactly the candidates whose normalized name is
  neither a key of the ledger nor the normalized name of an earlier candidate, in input
  order (\<open>nths\<close> selects the elements at a set of positions, keeping their order).
  The returned entities have pairwise distinct normalized names, and after the call each
  of them is the ledger's entry under its normalized name.  On a new ledger, candidates
  named Alpha, alpha and Beta give the first and the third, in that order.
\<close>

theorem register_entities_novel:
  "snd (register_entities L es) =
     nths es {i. i < length es \<and> ledger_key (name (es ! i)) \<notin> fst ` set L \<and>
                 (\<forall>j<i. ledger_key (name (es ! j)) \<noteq> ledger_key (name (es ! i)))}
   \<and> distinct (map (\<lambda>e. ledger_key (name e)) (snd (register_entities L es)))
   \<and> (\<forall>e \<in> set (snd (register_entities L es)).
         map_of (fst (register_entities L es)) (ledger_key (name e)) = Some e)
   \<and> (name a = ''Alpha'' \<longrightarrow> name b = ''alpha'' \<longrightarrow> name c = ''Beta'' \<longrightarrow>
         snd (register_entities new_ledger [a, b, c]) = [a, c])"
proof (intro conjI impI)
  show "snd (register_entities L es) =
     nths es {i. i < length es \<and> ledger_key (name (es ! i)) \<notin> fst ` set L \<and>
                 (\<forall>j<i. ledger_key (name (es ! j)) \<noteq> ledger_key (name (es ! i)))}"
    unfolding register_entities_def by (rule register_loop_nths)
next
  show "distinct (map (\<lambda>e. ledger_key (name e)) (snd (register_entities L es)))"
    unfolding register_entities_def by (rule register_loop_distinct) simp_all
next
  show "\<forall>e \<in> set (snd (register_entities L es)).
         map_of (fst (register_entities L es)) (ledger_key (name e)) = Some e"
    unfolding register_entities_def by (rule register_loop_stored) simp
next
  assume "name a = ''Alpha''" "name b = ''alpha''" "name c = ''Beta''"
  then show "snd (register_entities new_ledger [a, b, c]) = [a, c]"
    by (simp add: register_entities_def new_ledger_def Let_def
          ledger_key_Alpha ledger_key_alpha ledger_key_Beta)
qed

theorem register_entities_novel_witness:
  "snd (register_entities new_ledger
          [make_entity ''Alpha'' None, make_entity ''alpha'' None, make_entity ''Beta'' None]) =
     [make_entity ''Alpha'' None, make_entity ''Beta'' None]
   \<and> distinct [ledger_key ''Alpha'', ledger_key ''Beta'']
   \<and> map_of (fst (register_entities new_ledger
          [make_entity ''Alpha'' None, make_entity ''alpha'' None, make_entity ''Beta'' None]))
        ''alpha'' = Some (make_entity ''Alpha'' None)
   \<and> map_of (fst (register_entities new_ledger
          [make_entity ''Alpha'' None, make_entity ''alpha'' None, make_entity ''Beta'' None]))
        ''beta'' = Some (make_entity ''Beta'' None)"
proof -
  let ?a = "make_entity ''Alpha'' None"
  let ?b = "make_entity ''alpha'' None"
  let ?c = "make_entity ''Beta'' None"
  note inst = register_entities_novel [of new_ledger "[?a, ?b, ?c]" ?a ?b ?c]
  have na: "name ?a = ''Alpha''" and nb: "name ?b = ''alpha''" and nc: "name ?c = ''Beta''"
    by (simp_all add: make_entity_def)
  have novel: "snd (register_entities new_ledger [?a, ?b, ?c]) = [?a, ?c]"
    using inst na nb nc by blast
  have "distinct (map (\<lambda>e. ledger_key (name e)) (snd (register_entities new_ledger [?a, ?b, ?c])))"
    using inst by blast
  then have d: "distinct [ledger_key ''Alpha'', ledger_key ''Beta'']"
    by (simp add: novel na nc)
  have "\<forall>e \<in> set (snd (register_entities new_ledger [?a, ?b, ?c])).
          map_of (fst (register_entities new_ledger [?a, ?b, ?c])) (ledger_key (name e)) = Some e"
    using inst by blast
  then have
    "map_of (fst (register_entities new_ledger [?a, ?b, ?c])) (ledger_key (name ?a)) = Some ?a"
    "map_of (fst (register_entities new_ledger [?a, ?b, ?c])) (ledger_key (name ?c)) = Some ?c"
    by (simp_all add: novel)
  then show ?thesis
    using novel d by (simp add: na nc ledger_key_Alpha ledger_key_Beta)
qed

subsection \<open>Lookups and the resolution of one relation\<close>

lemma find_holds: "List.find P xs = Some x \<Longrightarrow> P x"
  by (induction xs) (auto split: if_splits)

lemma find_exists: "x \<in> set xs \<Longrightarrow> P x \<Longrightarrow> \<exists>y. List.find P xs = Some y"
  by (induction xs) auto

lemma ledger_lookup_by_id:
  "ledger_lookup L (Some i) nm = Some e \<Longrightarrow> id' e = Some i"
  by (auto simp add: ledger_lookup_def dest: find_holds)

lemma resolve_relation_subject_some:
  "subject_entity_id r = Some i \<Longrightarrow> subject_entity_id (resolve_relation L r) = Some i"
  by (auto simp add: resolve_relation_def Let_def dest: ledger_lookup_by_id split: option.splits)

lemma resolve_relation_object_some:
  "object_entity_id r = Some i \<Longrightarrow> object_entity_id (resolve_relation L r) = Some i"
  by (auto simp add: resolve_relation_def Let_def dest: ledger_lookup_by_id split: option.splits)

lemma resolve_relation_frame:
  "rel_id (resolve_relation L r) = rel_id r"
  "predicate (resolve_relation L r) = predicate r"
  "subject_name (resolve_relation L r) = subject_name r"
  "object_name (resolve_relation L r) = object_name r"
  "rel_description (resolve_relation L r) = rel_description r"
  "rel_metadata (resolve_relation L r) = rel_metadata r"
  by (simp_all add: resolve_relation_def Let_def)

lemma ledger_lookup_stable:
  "ledger_lookup L None nm = Some e \<Longrightarrow> id' e = Some j \<Longrightarrow>
   \<exists>f. ledger_lookup L (Some j) nm' = Some f \<and> id' f = Some j"
proof -
  assume a: "ledger_lookup L None nm = Some e" and b: "id' e = Some j"
  from a obtain n where "map_of L (ledger_key n) = Some e"
    by (auto simp add: ledger_lookup_def split: option.splits if_splits)
  then have "e \<in> set (map snd L)"
    by (force dest: map_of_SomeD)
  with b obtain f where f: "List.find (\<lambda>entity. id' entity = Some j) (map snd L) = Some f"
    using find_exists [of e "map snd L" "\<lambda>entity. id' entity = Some j"] by blast
  then have "id' f = Some j" by (rule find_holds)
  with f show ?thesis by (simp add: ledger_lookup_def)
qed

lemma ledger_lookup_found_or_kept:
  "(case ledger_lookup L (Some j) nm of Some s \<Rightarrow> id' s | None \<Rightarrow> Some j) = Some j"
  by (auto dest: ledger_lookup_by_id split: option.splits)

lemma endpoint_idem:
  "(case ledger_lookup L (case ledger_lookup L i nm of Some s \<Rightarrow> id' s | None \<Rightarrow> i) nm of
      Some s \<Rightarrow> id' s
    | None \<Rightarrow> (case ledger_lookup L i nm of Some s \<Rightarrow> id' s | None \<Rightarrow> i)) =
   (case ledger_lookup L i nm of Some s \<Rightarrow> id' s | None \<Rightarrow> i)"
proof (cases i)
  case (Some j)
  show ?thesis
  proof (cases "ledger_lookup L (Some j) nm")
    case None
    show ?thesis unfolding \<open>i = Some j\<close> by (simp add: None)
  next
    case (Some s)
    then have "id' s = Some j" by (rule ledger_lookup_by_id)
    then show ?thesis unfolding \<open>i = Some j\<close> by (simp add: Some)
  qed
next
  case None
  show ?thesis
  proof (cases "ledger_lookup L None nm")
    case None
    show ?thesis unfolding \<open>i = None\<close> by (simp add: None)
  next
    case (Some e)
    show ?thesis
    proof (cases "id' e")
      case None
      show ?thesis unfolding \<open>i = None\<close> by (simp add: Some None)
    next
      case (Some j)
      from ledger_lookup_stable [OF \<open>ledger_lookup L None nm = Some e\<close> Some, of nm]
      obtain f where "ledger_lookup L (Some j) nm = Some f" and "id' f = Some j"
        by blast
      then show ?thesis unfolding \<open>i = None\<close>
        by (simp add: \<open>ledger_lookup L None nm = Some e\<close> Some)
    qed
  qed
qed

lemma resolve_relation_subject:
  "subject_entity_id (resolve_relation L r) =
     (case ledger_lookup L (subject_entity_id r) (subject_name r) of
        Some s \<Rightarrow> id' s | None \<Rightarrow> subject_entity_id r)"
  by (simp add: resolve_relation_def Let_def)

lemma resolve_relation_object:
  "object_entity_id (resolve_relation L r) =
     (case ledger_lookup L (object_entity_id r) (object_name r) of
        Some s \<Rightarrow> id' s | None \<Rightarrow> object_entity_id r)"
  by (simp add: resolve_relation_def Let_def)

lemma resolve_relation_more:
  "Relation.more (resolve_relation L r) = Relation.more r"
  by (simp add: resolve_relation_def Let_def)

lemma resolve_relation_idem:
  "resolve_relation L (resolve_relation L r) = resolve_relation L r"
proof (rule Relation.equality)
  show "subject_entity_id (resolve_relation L (resolve_relation L r)) =
        subject_entity_id (resolve_relation L r)"
    by (simp only: resolve_relation_subject resolve_relation_frame endpoint_idem)
  show "object_entity_id (resolve_relation L (resolve_relation L r)) =
        object_entity_id (resolve_relation L r)"
    by (simp only: resolve_relation_object resolve_relation_frame endpoint_idem)
qed (simp_all only: resolve_relation_frame resolve_relation_more)

lemma resolve_relations_idem:
  "resolve_relations L (resolve_relations L rs) = resolve_relations L rs"
  by (simp add: resolve_relations_def resolve_relation_idem)


lemma resolve_relations_nth:
  "i < length rs \<Longrightarrow> resolve_relations L rs ! i = resolve_relation L (rs ! i)"
  by (simp add: resolve_relations_def)

lemma resolve_relations_length:
  "length (resolve_relations L rs) = length rs"
  by (simp add: resolve_relations_def)

lemma ledger_lookup_absent:
  assumes "ledger_inv L"
    and "\<forall>n. nm = Some n \<longrightarrow> (\<forall>e \<in> snd ` set L. ledger_key (name e) \<noteq> ledger_key n)"
  shows "ledger_lookup L None nm = None"
proof (cases nm)
  case None
  then show ?thesis by (simp add: ledger_lookup_def)
next
  case (Some n)
  with assms have "map_of L (ledger_key n) = None"
    by (simp add: ledger_inv_absent)
  with Some show ?thesis by (simp add: ledger_lookup_def)
qed

subsection \<open>Resolution never fabricates an identifier\<close>

text \<open>
  C2.  In a ledger that stores every entity under its normalized name, take any relation
  of the input.  If an endpoint (subject or object) has no identifier and its name, when
  there is one, has a normalized form different from the normalized name of every entity
  the ledger holds, then in the corresponding output relation that endpoint still has no
  identifier, and its name is the input's name.
\<close>

theorem resolve_relations_never_fabricates:
  assumes "ledger_inv L" and "i < length rs"
  shows
    "(subject_entity_id (rs ! i) = None \<and>
      (\<forall>n. subject_name (rs ! i) = Some n \<longrightarrow>
           (\<forall>e \<in> snd ` set L. ledger_key (name e) \<noteq> ledger_key n)) \<longrightarrow>
        subject_entity_id (resolve_relations L rs ! i) = None \<and>
        subject_name (resolve_relations L rs ! i) = subject_name (rs ! i))
   \<and> (object_entity_id (rs ! i) = None \<and>
      (\<forall>n. object_name (rs ! i) = Some n \<longrightarrow>
           (\<forall>e \<in> snd ` set L. ledger_key (name e) \<noteq> ledger_key n)) \<longrightarrow>
        object_entity_id (resolve_relations L rs ! i) = None \<and>
        object_name (resolve_relations L rs ! i) = object_name (rs ! i))"
proof (intro conjI impI)
  assume a: "subject_entity_id (rs ! i) = None \<and>
      (\<forall>n. subject_name (rs ! i) = Some n \<longrightarrow>
           (\<forall>e \<in> snd ` set L. ledger_key (name e) \<noteq> ledger_key n))"
  then have "ledger_lookup L None (subject_name (rs ! i)) = None"
    using assms(1) by (intro ledger_lookup_absent) simp_all
  with a show "subject_entity_id (resolve_relations L rs ! i) = None"
    using assms(2) by (simp add: resolve_relations_nth resolve_relation_subject)
  show "subject_name (resolve_relations L rs ! i) = subject_name (rs ! i)"
    using assms(2) by (simp add: resolve_relations_nth resolve_relation_frame)
next
  assume a: "object_entity_id (rs ! i) = None \<and>
      (\<forall>n. object_name (rs ! i) = Some n \<longrightarrow>
           (\<forall>e \<in> snd ` set L. ledger_key (name e) \<noteq> ledger_key n))"
  then have "ledger_lookup L None (object_name (rs ! i)) = None"
    using assms(1) by (intro ledger_lookup_absent) simp_all
  with a show "object_entity_id (resolve_relations L rs ! i) = None"
    using assms(2) by (simp add: resolve_relations_nth resolve_relation_object)
  show "object_name (resolve_relations L rs ! i) = object_name (rs ! i)"
    using assms(2) by (simp add: resolve_relations_nth resolve_relation_frame)
qed

lemma ledger_key_Gamma: "ledger_key ''Gamma'' = ''gamma''"
  by (simp add: ledger_key_def strip_def lower_def isspace_def)

lemma stored_Alpha:
  "update_with_stored (fst (register_entities new_ledger [make_entity ''Alpha'' None]))
     [make_entity ''Alpha'' (Some 42)] = [(''alpha'', make_entity ''Alpha'' (Some 42))]"
  by (simp add: register_entities_def new_ledger_def Let_def make_entity_def ledger_key_Alpha)

theorem resolve_relations_never_fabricates_witness:
  "ledger_inv [(''alpha'', make_entity ''Alpha'' (Some 42))]
   \<and> object_entity_id (make_relation (Some ''Alpha'') (Some ''Gamma'')) = None
   \<and> ledger_key ''Gamma'' \<noteq> ledger_key (name (make_entity ''Alpha'' (Some 42)))
   \<and> object_entity_id
        (resolve_relations [(''alpha'', make_entity ''Alpha'' (Some 42))]
           [make_relation (Some ''Alpha'') (Some ''Gamma'')] ! 0) = None
   \<and> object_name
        (resolve_relations [(''alpha'', make_entity ''Alpha'' (Some 42))]
           [make_relation (Some ''Alpha'') (Some ''Gamma'')] ! 0) = Some ''Gamma''"
proof -
  let ?L = "[(''alpha'', make_entity ''Alpha'' (Some 42))]"
  let ?rs = "[make_relation (Some ''Alpha'') (Some ''Gamma'')]"
  have inv: "ledger_inv ?L"
    by (simp add: ledger_inv_def make_entity_def ledger_key_Alpha)
  have i: "(0::nat) < length ?rs" by simp
  have nid: "object_entity_id (?rs ! 0) = None" by (simp add: make_relation_def)
  have ne: "ledger_key ''Gamma'' \<noteq> ledger_key (name (make_entity ''Alpha'' (Some 42)))"
    by (simp add: make_entity_def ledger_key_Alpha ledger_key_Gamma)
  have hyp: "\<forall>n. object_name (?rs ! 0) = Some n \<longrightarrow>
           (\<forall>e \<in> snd ` set ?L. ledger_key (name e) \<noteq> ledger_key n)"
    using ne by (simp add: make_relation_def)
  from resolve_relations_never_fabricates [OF inv i] nid hyp
  have "object_entity_id (resolve_relations ?L ?rs ! 0) = None \<and>
        object_name (resolve_relations ?L ?rs ! 0) = object_name (?rs ! 0)"
    by blast
  then show ?thesis using inv ne by (simp add: make_relation_def)
qed


subsection \<open>What resolution leaves alone\<close>

text \<open>
  C3.  \<open>resolve_relations\<close> returns one relation per input relation, in the same order.
  The output is a list of new values built from the input, which is left as it was.  In
  each output relation every field but the two endpoint identifiers equals the input's
  field, and an endpoint identifier that the input has is kept as it is: only an absent
  identifier can be filled in.
\<close>

theorem resolve_relations_frame:
  "length (resolve_relations L rs) = length rs
   \<and> (\<forall>i<length rs.
         rel_id (resolve_relations L rs ! i) = rel_id (rs ! i)
       \<and> predicate (resolve_relations L rs ! i) = predicate (rs ! i)
       \<and> subject_name (resolve_relations L rs ! i) = subject_name (rs ! i)
       \<and> object_name (resolve_relations L rs ! i) = object_name (rs ! i)
       \<and> rel_description (resolve_relations L rs ! i) = rel_description (rs ! i)
       \<and> rel_metadata (resolve_relations L rs ! i) = rel_metadata (rs ! i)
       \<and> (subject_entity_id (rs ! i) \<noteq> None \<longrightarrow>
            subject_entity_id (resolve_relations L rs ! i) = subject_entity_id (rs ! i))
       \<and> (object_entity_id (rs ! i) \<noteq> None \<longrightarrow>
            object_entity_id (resolve_relations L rs ! i) = object_entity_id (rs ! i)))"
proof (intro conjI allI impI)
  show "length (resolve_relations L rs) = length rs"
    by (rule resolve_relations_length)
next
  fix i assume "i < length rs" and "subject_entity_id (rs ! i) \<noteq> None"
  then show "subject_entity_id (resolve_relations L rs ! i) = subject_entity_id (rs ! i)"
    by (auto simp add: resolve_relations_nth resolve_relation_subject_some)
next
  fix i assume "i < length rs" and "object_entity_id (rs ! i) \<noteq> None"
  then show "object_entity_id (resolve_relations L rs ! i) = object_entity_id (rs ! i)"
    by (auto simp add: resolve_relations_nth resolve_relation_object_some)
qed (simp_all add: resolve_relations_nth resolve_relation_frame)

theorem resolve_relations_frame_witness:
  "length (resolve_relations [(''alpha'', make_entity ''Alpha'' (Some 42))]
      [(make_relation (Some ''Alpha'') (Some ''Alpha'')) \<lparr>object_entity_id := Some 7\<rparr>]) = 1
   \<and> subject_name (resolve_relations [(''alpha'', make_entity ''Alpha'' (Some 42))]
      [(make_relation (Some ''Alpha'') (Some ''Alpha'')) \<lparr>object_entity_id := Some 7\<rparr>] ! 0)
       = Some ''Alpha''
   \<and> predicate (resolve_relations [(''alpha'', make_entity ''Alpha'' (Some 42))]
      [(make_relation (Some ''Alpha'') (Some ''Alpha'')) \<lparr>object_entity_id := Some 7\<rparr>] ! 0)
       = ''ally_of''
   \<and> object_entity_id (resolve_relations [(''alpha'', make_entity ''Alpha'' (Some 42))]
      [(make_relation (Some ''Alpha'') (Some ''Alpha'')) \<lparr>object_entity_id := Some 7\<rparr>] ! 0)
       = Some 7
   \<and> subject_entity_id (resolve_relations [(''alpha'', make_entity ''Alpha'' (Some 42))]
      [(make_relation (Some ''Alpha'') (Some ''Alpha'')) \<lparr>object_entity_id := Some 7\<rparr>] ! 0)
       = Some 42"
proof -
  let ?L = "[(''alpha'', make_entity ''Alpha'' (Some 42))]"
  let ?r = "(make_relation (Some ''Alpha'') (Some ''Alpha'')) \<lparr>object_entity_id := Some 7\<rparr>"
  have i: "(0::nat) < length [?r]" by simp
  have given: "object_entity_id ([?r] ! 0) \<noteq> None" by simp
  from resolve_relations_frame [of ?L "[?r]"] i given
  have "length (resolve_relations ?L [?r]) = length [?r]"
    and "subject_name (resolve_relations ?L [?r] ! 0) = subject_name ([?r] ! 0)"
    and "predicate (resolve_relations ?L [?r] ! 0) = predicate ([?r] ! 0)"
    and "object_entity_id (resolve_relations ?L [?r] ! 0) = object_entity_id ([?r] ! 0)"
    by blast+
  moreover have "subject_entity_id (resolve_relations ?L [?r] ! 0) = Some 42"
    by (simp add: resolve_relations_def resolve_relation_def ledger_lookup_def
          make_relation_def make_entity_def ledger_key_Alpha)
  ultimately show ?thesis by (simp add: make_relation_def)
qed

subsection \<open>Stored identifiers reach the relations\<close>

text \<open>
  C4.  Register an entity named Alpha, then call \<open>update_with_stored\<close> with an entity
  named Alpha whose identifier is 42.  Resolving a relation whose subject name is Alpha
  and whose subject identifier is absent gives a relation whose subject identifier is 42.
  This holds whatever the ledger held before and whatever the other fields are.
\<close>

theorem update_with_stored_overwrites_ids:
  assumes "name e = ''Alpha''" and "name e' = ''Alpha''" and "id' e' = Some 42"
    and "subject_name r = Some ''Alpha''" and "subject_entity_id r = None"
  shows "subject_entity_id
           (resolve_relations (update_with_stored (fst (register_entities L [e])) [e']) [r] ! 0)
         = Some 42"
proof -
  let ?L = "update_with_stored (fst (register_entities L [e])) [e']"
  have "map_of ?L ''alpha'' = Some e'"
    using assms(2) by (simp add: AList.update_conv' ledger_key_Alpha)
  then have "ledger_lookup ?L None (Some ''Alpha'') = Some e'"
    by (simp add: ledger_lookup_def ledger_key_Alpha)
  then show ?thesis
    using assms(3,4,5) by (simp add: resolve_relations_nth resolve_relation_subject)
qed

theorem update_with_stored_overwrites_ids_witness:
  "subject_entity_id
     (resolve_relations
        (update_with_stored (fst (register_entities new_ledger [make_entity ''Alpha'' None]))
           [make_entity ''Alpha'' (Some 42)])
        [make_relation (Some ''Alpha'') None] ! 0) = Some 42"
  using update_with_stored_overwrites_ids
    [of "make_entity ''Alpha'' None" "make_entity ''Alpha'' (Some 42)"
        "make_relation (Some ''Alpha'') None" new_ledger]
  by (simp add: make_entity_def make_relation_def)

subsection \<open>Idempotence\<close>

text \<open>
  C5.  With the ledger fixed, resolving the output of \<open>resolve_relations\<close> once more
  returns that output unchanged.
\<close>

theorem resolve_relations_idempotent:
  "resolve_relations L (resolve_relations L rs) = resolve_relations L rs"
  by (simp add: resolve_relations_def resolve_relation_idem)

theorem resolve_relations_idempotent_witness:
  "resolve_relations [(''alpha'', make_entity ''Alpha'' (Some 42))]
     (resolve_relations [(''alpha'', make_entity ''Alpha'' (Some 42))]
        [make_relation (Some ''Alpha'') (Some ''Gamma'')]) =
   [(make_relation (Some ''Alpha'') (Some ''Gamma'')) \<lparr>subject_entity_id := Some 42\<rparr>]"
proof -
  let ?L = "[(''alpha'', make_entity ''Alpha'' (Some 42))]"
  have "resolve_relations ?L [make_relation (Some ''Alpha'') (Some ''Gamma'')] =
        [(make_relation (Some ''Alpha'') (Some ''Gamma'')) \<lparr>subject_entity_id := Some 42\<rparr>]"
    by (simp add: resolve_relations_def resolve_relation_def ledger_lookup_def
          make_relation_def make_entity_def ledger_key_Alpha ledger_key_Gamma)
  with resolve_relations_idempotent [of ?L "[make_relation (Some ''Alpha'') (Some ''Gamma'')]"]
  show ?thesis by simp
qed

lemma register_loop_length:
  "length (snd (register_loop L u es)) \<le> length u + length es"
proof (induction es arbitrary: L u)
  case Nil
  show ?case by simp
next
  case (Cons e es)
  show ?case
    using Cons.IH [of L u] Cons.IH [of "AList.update (ledger_key (name e)) e L" "u @ [e]"]
    by (simp add: Let_def)
qed

lemma update_with_stored_keys:
  "fst ` set (update_with_stored L es) = fst ` set L \<union> (\<lambda>e. ledger_key (name e)) ` set es"
  by (induction es arbitrary: L) (auto simp add: AList.dom_update)

lemma resolve_relation_null:
  "subject_entity_id r = None \<Longrightarrow> subject_name r = None \<Longrightarrow>
   object_entity_id r = None \<Longrightarrow> object_name r = None \<Longrightarrow> resolve_relation L r = r"
  by (simp add: resolve_relation_def ledger_lookup_def)

subsection \<open>No operation fails\<close>

text \<open>
  C7.  The three operations have no failing branch: the source raises nowhere, reads a
  name only after testing that it is present and reads an entity's identifier only after
  testing that the lookup found one, so each is a function that returns a value on every
  input.  Registration returns at most as many entities as it was given, an update leaves
  the ledger with its old keys and the normalized names it was given, and resolution
  returns one relation per input relation.  A relation with no endpoint names and no
  endpoint identifiers is returned as it is, in any ledger; in particular the relation of
  the test keeps both identifiers absent.
\<close>

theorem resolve_relations_handles_missing_entities:
  "(subject_entity_id r = None \<and> subject_name r = None \<and>
    object_entity_id r = None \<and> object_name r = None \<longrightarrow>
      resolve_relations L [r] = [r])
   \<and> subject_entity_id (resolve_relations new_ledger [make_relation None None] ! 0) = None
   \<and> object_entity_id (resolve_relations new_ledger [make_relation None None] ! 0) = None
   \<and> length (resolve_relations L rs) = length rs
   \<and> length (snd (register_entities L es)) \<le> length es
   \<and> fst ` set (update_with_stored L es) = fst ` set L \<union> (\<lambda>e. ledger_key (name e)) ` set es"
proof (intro conjI impI)
  assume "subject_entity_id r = None \<and> subject_name r = None \<and>
    object_entity_id r = None \<and> object_name r = None"
  then show "resolve_relations L [r] = [r]"
    by (simp add: resolve_relations_def resolve_relation_null)
next
  show "length (snd (register_entities L es)) \<le> length es"
    using register_loop_length [of L "[]" es] by (simp add: register_entities_def)
next
  show "fst ` set (update_with_stored L es) =
          fst ` set L \<union> (\<lambda>e. ledger_key (name e)) ` set es"
    by (rule update_with_stored_keys)
qed (simp_all add: resolve_relations_def resolve_relation_null make_relation_def)

theorem resolve_relations_handles_missing_entities_witness:
  "resolve_relations [(''alpha'', make_entity ''Alpha'' (Some 42))] [make_relation None None] =
     [make_relation None None]"
  using resolve_relations_handles_missing_entities
    [of "make_relation None None" "[(''alpha'', make_entity ''Alpha'' (Some 42))]"]
  by (simp add: make_relation_def)

subsection \<open>The empty name\<close>

text \<open>
  C10.  An endpoint with no identifier whose name is the empty string is not looked up:
  in the output the identifier is still absent and the name is still the empty string,
  in every ledger, also one that holds an entity under the empty key (an entity whose
  name is only whitespace).
\<close>

theorem empty_name_is_not_looked_up:
  assumes "i < length rs"
  shows
    "(subject_entity_id (rs ! i) = None \<and> subject_name (rs ! i) = Some [] \<longrightarrow>
        subject_entity_id (resolve_relations L rs ! i) = None \<and>
        subject_name (resolve_relations L rs ! i) = Some [])
   \<and> (object_entity_id (rs ! i) = None \<and> object_name (rs ! i) = Some [] \<longrightarrow>
        object_entity_id (resolve_relations L rs ! i) = None \<and>
        object_name (resolve_relations L rs ! i) = Some [])"
  using assms
  by (simp add: resolve_relations_nth resolve_relation_subject resolve_relation_object
        resolve_relation_frame ledger_lookup_def)

lemma ledger_key_blank: "ledger_key ''   '' = []"
  by (simp add: ledger_key_def strip_def lower_def isspace_def)

theorem empty_name_is_not_looked_up_witness:
  "map_of (update_with_stored (fst (register_entities new_ledger [make_entity ''   '' None]))
             [make_entity ''   '' (Some 7)]) (ledger_key []) = Some (make_entity ''   '' (Some 7))
   \<and> subject_entity_id
        (resolve_relations
           (update_with_stored (fst (register_entities new_ledger [make_entity ''   '' None]))
              [make_entity ''   '' (Some 7)])
           [make_relation (Some []) None] ! 0) = None
   \<and> subject_name
        (resolve_relations
           (update_with_stored (fst (register_entities new_ledger [make_entity ''   '' None]))
              [make_entity ''   '' (Some 7)])
           [make_relation (Some []) None] ! 0) = Some []"
proof -
  let ?L = "update_with_stored (fst (register_entities new_ledger [make_entity ''   '' None]))
              [make_entity ''   '' (Some 7)]"
  let ?rs = "[make_relation (Some []) None]"
  have held: "map_of ?L (ledger_key []) = Some (make_entity ''   '' (Some 7))"
    by (simp add: register_entities_def new_ledger_def Let_def make_entity_def ledger_key_blank
          ledger_key_def strip_def lower_def isspace_def)
  have i: "(0::nat) < length ?rs" by simp
  have pre: "subject_entity_id (?rs ! 0) = None \<and> subject_name (?rs ! 0) = Some []"
    by (simp add: make_relation_def)
  from empty_name_is_not_looked_up [OF i, of ?L] pre
  have "subject_entity_id (resolve_relations ?L ?rs ! 0) = None \<and>
        subject_name (resolve_relations ?L ?rs ! 0) = Some []"
    by blast
  with held show ?thesis by simp
qed

subsection \<open>One entity per normalized name\<close>

lemma ledger_inv_after: "ledger_inv L \<Longrightarrow> ledger_inv (ledger_after L c)"
  by (cases c)
     (simp_all add: register_entities_def ledger_inv_register_loop ledger_inv_update_with_stored)

lemma ledger_inv_new: "ledger_inv new_ledger"
  by (simp add: ledger_inv_def new_ledger_def)

lemma ledger_inv_calls: "ledger_inv L \<Longrightarrow> ledger_inv (foldl ledger_after L calls)"
  by (induction calls arbitrary: L) (simp_all add: ledger_inv_after)

text \<open>
  C6, as stated, at a concrete input: on a new ledger register two candidates named
  Alpha and alpha.  The record stored under their key is the first of them, while the
  last-registered-then-last-updated record is the second.
\<close>

theorem last_registered_does_not_win:
  "map_of (ledger_after new_ledger
             (Register [make_entity ''Alpha'' None, make_entity ''alpha'' None])) ''alpha''
     = Some (make_entity ''Alpha'' None)
   \<and> last_registered_then_last_updated
        [make_entity ''Alpha'' None, make_entity ''alpha'' None] [] ''alpha''
     = Some (make_entity ''alpha'' None)
   \<and> make_entity ''Alpha'' None \<noteq> make_entity ''alpha'' None"
  by (simp add: register_entities_def new_ledger_def Let_def make_entity_def
        last_registered_then_last_updated_def ledger_key_Alpha ledger_key_alpha)

text \<open>
  C6, amended.  The ledger holds at most one entity per normalized name, each under
  that name as its key: this holds for a new ledger, is preserved by every call of
  \<open>register_entities\<close>, \<open>update_with_stored\<close> and \<open>resolve_relations\<close>, and so holds
  after every sequence of calls.  Registration never replaces a record: after it, a key
  holds what it held before, and a key that was free holds the first candidate with that
  normalized name.  An update replaces: after it, a key holds the last entity of the
  update with that normalized name, and what it held before when there is none.
  Registration order decides which candidates are reported: the first with each
  normalized name that is not yet a key.
\<close>

theorem ledger_one_entity_per_name:
  "ledger_inv new_ledger
   \<and> (ledger_inv L \<longrightarrow> ledger_inv (ledger_after L c))
   \<and> ledger_inv (foldl ledger_after new_ledger calls)
   \<and> distinct (map (\<lambda>(k, entity). ledger_key (name entity))
                 (foldl ledger_after new_ledger calls))
   \<and> map_of (ledger_after L (Register es)) k =
        (case map_of L k of
           Some e \<Rightarrow> Some e
         | None \<Rightarrow> List.find (\<lambda>e. ledger_key (name e) = k) es)
   \<and> map_of (ledger_after L (Update us)) k =
        (case List.find (\<lambda>e. ledger_key (name e) = k) (rev us) of
           Some u \<Rightarrow> Some u
         | None \<Rightarrow> map_of L k)
   \<and> ledger_after L (Resolve rs) = L
   \<and> snd (register_entities L es) =
        nths es {i. i < length es \<and> ledger_key (name (es ! i)) \<notin> fst ` set L \<and>
                    (\<forall>j<i. ledger_key (name (es ! j)) \<noteq> ledger_key (name (es ! i)))}"
proof (intro conjI impI)
  show "ledger_inv new_ledger" by (rule ledger_inv_new)
  show "ledger_inv (foldl ledger_after new_ledger calls)"
    by (rule ledger_inv_calls [OF ledger_inv_new])
  then show "distinct (map (\<lambda>(k, entity). ledger_key (name entity))
                 (foldl ledger_after new_ledger calls))"
    by (rule ledger_inv_names_distinct)
  show "map_of (ledger_after L (Register es)) k =
        (case map_of L k of
           Some e \<Rightarrow> Some e
         | None \<Rightarrow> List.find (\<lambda>e. ledger_key (name e) = k) es)"
    by (simp add: register_entities_def register_loop_map_of)
  show "map_of (ledger_after L (Update us)) k =
        (case List.find (\<lambda>e. ledger_key (name e) = k) (rev us) of
           Some u \<Rightarrow> Some u
         | None \<Rightarrow> map_of L k)"
    by (simp add: update_with_stored_map_of)
  show "ledger_after L (Resolve rs) = L" by simp
  show "snd (register_entities L es) =
        nths es {i. i < length es \<and> ledger_key (name (es ! i)) \<notin> fst ` set L \<and>
                    (\<forall>j<i. ledger_key (name (es ! j)) \<noteq> ledger_key (name (es ! i)))}"
    unfolding register_entities_def by (rule register_loop_nths)
next
  assume "ledger_inv L"
  then show "ledger_inv (ledger_after L c)" by (rule ledger_inv_after)
qed

theorem ledger_one_entity_per_name_witness:
  "ledger_inv [(''alpha'', make_entity ''Alpha'' None)]
   \<and> ledger_inv [(''alpha'', make_entity ''alpha'' (Some 42))]
   \<and> ledger_after [(''alpha'', make_entity ''Alpha'' None)]
        (Update [make_entity ''Alpha'' (Some 41), make_entity ''alpha'' (Some 42)])
      = [(''alpha'', make_entity ''alpha'' (Some 42))]
   \<and> map_of (ledger_after new_ledger
        (Register [make_entity ''Alpha'' None, make_entity ''alpha'' None])) ''alpha''
      = Some (make_entity ''Alpha'' None)"
proof -
  let ?L = "[(''alpha'', make_entity ''Alpha'' None)]"
  let ?c = "Update [make_entity ''Alpha'' (Some 41), make_entity ''alpha'' (Some 42)]"
  note inst = ledger_one_entity_per_name
    [of ?L ?c "[]" "[make_entity ''Alpha'' None, make_entity ''alpha'' None]" "''alpha''" "[]" "[]"]
  have inv: "ledger_inv ?L"
    by (simp add: ledger_inv_def make_entity_def ledger_key_Alpha)
  have after: "ledger_after ?L ?c = [(''alpha'', make_entity ''alpha'' (Some 42))]"
    by (simp add: make_entity_def ledger_key_Alpha ledger_key_alpha)
  from inst inv have "ledger_inv (ledger_after ?L ?c)" by blast
  then have inv': "ledger_inv [(''alpha'', make_entity ''alpha'' (Some 42))]"
    by (simp only: after)
  from ledger_one_entity_per_name
    [of ?L ?c "[]" "[make_entity ''Alpha'' None, make_entity ''alpha'' None]" "''alpha''" "[]" "[]"]
  have "map_of (ledger_after new_ledger
          (Register [make_entity ''Alpha'' None, make_entity ''alpha'' None])) ''alpha''
        = Some (make_entity ''Alpha'' None)"
    by (simp add: register_entities_def new_ledger_def Let_def make_entity_def
          ledger_key_Alpha ledger_key_alpha)
  with inv inv' after show ?thesis by simp
qed

section \<open>Properties of the entity categories\<close>

text \<open>
  C8, as stated, at a concrete input: faction is one of the seven values, and it is no
  value of the worldbuild package's \<open>EntityType\<close>, the category of the entities its
  ledger handles.
\<close>

theorem faction_is_no_worldbuild_category:
  "EntityType_of_value ''faction'' = Inl ValueError
   \<and> ''faction'' \<notin> set (map EntityType_value EntityType_members)
   \<and> Resonance_EntityType_of_value ''faction'' = Inr R_FACTION"
  by (simp add: EntityType_of_value_def EntityType_members_def
        Resonance_EntityType_of_value_def Resonance_EntityType_members_def)

text \<open>
  C8, amended.  The category of a resonance \<open>WorldEntity\<close> is drawn from exactly seven
  values: every member of resonance's \<open>EntityType\<close> carries one of character, location,
  organization, item, faction, event and concept, each of the seven is carried by a
  member, and different members carry different values.  The category of a worldbuild
  \<open>WorldEntity\<close> is drawn from exactly the first four of them, in the same sense.
\<close>

theorem entity_categories:
  "range Resonance_EntityType_value =
     {''character'', ''location'', ''organization'', ''item'', ''faction'', ''event'', ''concept''}
   \<and> inj Resonance_EntityType_value
   \<and> set Resonance_EntityType_members = UNIV
   \<and> range EntityType_value = {''character'', ''location'', ''organization'', ''item''}
   \<and> inj EntityType_value
   \<and> set EntityType_members = UNIV
   \<and> EntityType_value (entity_type e) \<in> {''character'', ''location'', ''organization'', ''item''}"
proof -
  have ru: "set Resonance_EntityType_members = UNIV"
  proof (intro equalityI subsetI UNIV_I)
    fix t :: Resonance_EntityType
    show "t \<in> set Resonance_EntityType_members"
      by (cases t) (simp_all add: Resonance_EntityType_members_def)
  qed
  have wu: "set EntityType_members = UNIV"
  proof (intro equalityI subsetI UNIV_I)
    fix t :: EntityType
    show "t \<in> set EntityType_members"
      by (cases t) (simp_all add: EntityType_members_def)
  qed
  have "range Resonance_EntityType_value =
          Resonance_EntityType_value ` set Resonance_EntityType_members"
    by (simp only: ru)
  then have rr: "range Resonance_EntityType_value =
     {''character'', ''location'', ''organization'', ''item'', ''faction'', ''event'', ''concept''}"
    by (simp add: Resonance_EntityType_members_def)
  have "range EntityType_value = EntityType_value ` set EntityType_members"
    by (simp only: wu)
  then have wr: "range EntityType_value =
     {''character'', ''location'', ''organization'', ''item''}"
    by (simp add: EntityType_members_def)
  have ri: "inj Resonance_EntityType_value"
  proof (rule injI)
    fix x y assume "Resonance_EntityType_value x = Resonance_EntityType_value y"
    then show "x = y" by (cases x; cases y) simp_all
  qed
  have wi: "inj EntityType_value"
  proof (rule injI)
    fix x y assume "EntityType_value x = EntityType_value y"
    then show "x = y" by (cases x; cases y) simp_all
  qed
  have "EntityType_value (entity_type e) \<in> range EntityType_value" by simp
  then have we: "EntityType_value (entity_type e) \<in>
      {''character'', ''location'', ''organization'', ''item''}"
    by (simp only: wr)
  from rr ri ru wr wi wu we show ?thesis by blast
qed

theorem entity_categories_witness:
  "EntityType_value (entity_type (make_entity ''Alpha'' None)) = ''location''
   \<and> Resonance_EntityType_of_value ''concept'' = Inr R_CONCEPT
   \<and> EntityType_of_value ''item'' = Inr ITEM"
proof -
  from entity_categories [of "make_entity ''Alpha'' None"]
  have "EntityType_value (entity_type (make_entity ''Alpha'' None)) \<in>
      {''character'', ''location'', ''organization'', ''item''}"
    by blast
  then show ?thesis
    by (simp add: make_entity_def EntityType_of_value_def EntityType_members_def
          Resonance_EntityType_of_value_def Resonance_EntityType_members_def)
qed

section \<open>Properties of the chunker\<close>

subsection \<open>Splitting, stripping and joining\<close>




















subsection \<open>The loop over the paragraphs\<close>









subsection \<open>What textwrap.wrap keeps\<close>


















subsection \<open>A long paragraph with a line break\<close>



lemma split_chunks_replicate:
  "split_chunks (replicate (Suc k) c) = [replicate (Suc k) c]"
  by (induction k) simp_all















subsection \<open>What the chunks cover\<close>




end
